theory Spec2Isabelle
  imports Complex_Main "HOL-Library.AList" "HOL-Library.Sublist" "HOL-Library.Multiset"
begin

section \<open>The cookie shop: data model\<close>

text \<open>
  The program is one React component, \<^verbatim>\<open>CookieShop\<close>, in
  \<^verbatim>\<open>cookie_shop_single_file_react_app.jsx\<close>. Its state is a product list, three
  query parameters, the cart, and the checkout form. Every handler is modelled as a
  function from the state it reads to the state it writes.

  JavaScript numbers are modelled exactly: a quantity is an \<open>int\<close>, a price is a
  \<open>rat\<close> (4.5 is \<open>9/2\<close>). Rounding of IEEE doubles is outside the model. Strings are
  \<open>string\<close>: one \<open>char\<close> per ASCII character, and the bytes of the UTF-8 encoding
  for a character beyond ASCII. Functions of the platform that the source calls
  (\<^verbatim>\<open>String.prototype.toLowerCase\<close>, \<^verbatim>\<open>JSON.parse\<close>, \<^verbatim>\<open>localStorage.getItem\<close>)
  are parameters of the functions that call them.
\<close>

record product =
  p_id :: string
  p_name :: string
  p_price :: rat
  p_category :: string
  p_desc :: string
  p_img :: string

definition SAMPLE_PRODUCTS :: "product list" where
  "SAMPLE_PRODUCTS =
    [\<lparr>p_id = ''cookies-01'', p_name = ''Classic Chocolate Chip'', p_price = 9 / 2,
      p_category = ''Classic'',
      p_desc = ''Chewy, buttery cookies packed with semi-sweet chocolate chips.'',
      p_img = ''https://images.unsplash.com/photo-1606755962779-0c2a3d4a5c3b?q=80&w=800&auto=format&fit=crop&ixlib=rb-4.0.3&s=1''\<rparr>,
     \<lparr>p_id = ''cookies-02'', p_name = ''Oatmeal Raisin'', p_price = 4,
      p_category = ''Healthy'',
      p_desc = ''Wholesome oats, plump raisins and a cinnamon hint.'',
      p_img = ''https://images.unsplash.com/photo-1565958011703-44f9829ba187?q=80&w=800&auto=format&fit=crop&ixlib=rb-4.0.3&s=2''\<rparr>,
     \<lparr>p_id = ''cookies-03'', p_name = ''Double Chocolate'', p_price = 5,
      p_category = ''Decadent'',
      p_desc = ''Intense cocoa cookie with extra dark chocolate chunks.'',
      p_img = ''https://images.unsplash.com/photo-1544025161-7f53f50f98b0?q=80&w=800&auto=format&fit=crop&ixlib=rb-4.0.3&s=3''\<rparr>,
     \<lparr>p_id = ''cookies-04'', p_name = ''Peanut Butter Swirl'', p_price = 19 / 4,
      p_category = ''Classic'',
      p_desc = ''Creamy peanut butter ribbon in a soft cookie.'',
      p_img = ''https://images.unsplash.com/photo-1605475129286-1a29e0a6fb8b?q=80&w=800&auto=format&fit=crop&ixlib=rb-4.0.3&s=4''\<rparr>]"

text \<open>
  The cart is a plain JavaScript object from product id to quantity. It is modelled as
  the list of its own properties in the order \<^verbatim>\<open>Object.entries\<close> yields them:
  \<open>map_of\<close> reads a property, \<open>AList.update\<close> is the assignment
  \<^verbatim>\<open>next[k] = v\<close> (in place for a key that is there, at the end for a new one) and
  \<open>AList.delete\<close> is \<^verbatim>\<open>delete next[k]\<close>. The spread \<^verbatim>\<open>{ ...prev }\<close> copies
  the properties in order, so the copy is the same list. Two things of JavaScript
  objects are outside the model: keys that are array indices (such as \<^verbatim>\<open>"7"\<close>) are
  enumerated first, and a read of a key that names a member of
  \<^verbatim>\<open>Object.prototype\<close> finds the inherited member. The catalog's ids
  (\<^verbatim>\<open>cookies-01\<close>, ...) are neither.
\<close>

type_synonym cart = "(string \<times> int) list"

section \<open>Cart store\<close>

text \<open>\<^verbatim>\<open>x || 0\<close> on a property read: a missing property and the number 0 both give 0.\<close>

fun or_zero :: "int option \<Rightarrow> int" where
  "or_zero None = 0"
| "or_zero (Some v) = (if v = 0 then 0 else v)"

text \<open>
  \<^verbatim>\<open>addToCart(productId, qty = 1)\<close>, lines 70-76: the updater passed to
  \<^verbatim>\<open>setCart\<close>, as a function of the previous cart.
\<close>

definition addToCart :: "string \<Rightarrow> int \<Rightarrow> cart \<Rightarrow> cart" where
  "addToCart productId qty prev =
     AList.update productId (or_zero (map_of prev productId) + qty) prev"

text \<open>\<^verbatim>\<open>updateQty(productId, qty)\<close>, lines 78-85.\<close>

definition updateQty :: "string \<Rightarrow> int \<Rightarrow> cart \<Rightarrow> cart" where
  "updateQty productId qty prev =
     (if qty \<le> 0 then AList.delete productId prev else AList.update productId qty prev)"

text \<open>\<^verbatim>\<open>clearCart()\<close>, lines 87-89: \<^verbatim>\<open>setCart({})\<close>.\<close>

definition clearCart :: cart where
  "clearCart = []"

text \<open>\<^verbatim>\<open>itemsInCart()\<close>, lines 91-93: a left fold over \<^verbatim>\<open>Object.values(cart)\<close>.\<close>

definition itemsInCart :: "cart \<Rightarrow> int" where
  "itemsInCart c = foldl (\<lambda>a b. a + b) 0 (map snd c)"

text \<open>
  The carts the user interface can reach from the empty cart: \<^verbatim>\<open>addToCart\<close> with a
  positive quantity (the buttons pass 1 and 3), \<^verbatim>\<open>updateQty\<close> with any quantity
  (the buttons pass \<^verbatim>\<open>qty - 1\<close> and \<^verbatim>\<open>qty + 1\<close>), and \<^verbatim>\<open>clearCart\<close>.
\<close>

inductive reachable :: "cart \<Rightarrow> bool" where
  reach_empty: "reachable []"
| reach_add: "reachable c \<Longrightarrow> 0 < qty \<Longrightarrow> reachable (addToCart productId qty c)"
| reach_update: "reachable c \<Longrightarrow> reachable (updateQty productId qty c)"
| reach_clear: "reachable c \<Longrightarrow> reachable clearCart"

text \<open>
  \<^verbatim>\<open>cartTotal()\<close>, lines 95-100: a left fold over \<^verbatim>\<open>Object.entries(cart)\<close>;
  \<^verbatim>\<open>products.find\<close> gives the first product with the id, or nothing.
\<close>

definition cartTotal :: "cart \<Rightarrow> product list \<Rightarrow> rat" where
  "cartTotal c products =
     foldl (\<lambda>sum (id, qty).
              let p = find (\<lambda>x. p_id x = id) products
              in sum + (case p of Some p \<Rightarrow> p_price p * of_int qty | None \<Rightarrow> 0))
       0 c"

text \<open>
  The total as the specification words it: the sum over the cart's entries of the
  quantity times the matching product's price, and 0 for an id the catalog does not
  resolve.
\<close>

definition spec_total :: "cart \<Rightarrow> product list \<Rightarrow> rat" where
  "spec_total c catalog =
     (\<Sum>(k, q) \<leftarrow> c. case find (\<lambda>x. p_id x = k) catalog of
                        Some p \<Rightarrow> of_int q * p_price p
                      | None \<Rightarrow> 0)"

section \<open>Query engine\<close>

text \<open>
  \<^verbatim>\<open>String.prototype.toLowerCase\<close> is the platform's Unicode lower-casing. The
  functions below take it as the parameter \<open>toLowerCase\<close>. What is known of it here
  is its action on ASCII text: the letters A-Z move to a-z, every other character
  stays (\<open>ascii_folding\<close>). Beyond ASCII it is left open; there the platform's
  mapping depends on the neighbouring characters and can change the length.
\<close>

definition lower_char :: "char \<Rightarrow> char" where
  "lower_char ch =
     (let n = (of_char ch :: nat) in if 65 \<le> n \<and> n \<le> 90 then char_of (n + 32) else ch)"

definition ascii_toLowerCase :: "string \<Rightarrow> string" where
  "ascii_toLowerCase s = map lower_char s"

definition is_ascii :: "string \<Rightarrow> bool" where
  "is_ascii s = list_all (\<lambda>ch. (of_char ch :: nat) < 128) s"

definition ascii_folding :: "(string \<Rightarrow> string) \<Rightarrow> bool" where
  "ascii_folding toLowerCase \<longleftrightarrow> (\<forall>s. is_ascii s \<longrightarrow> toLowerCase s = ascii_toLowerCase s)"

text \<open>\<^verbatim>\<open>s.includes(t)\<close>: \<open>t\<close> starts at some position of \<open>s\<close>.\<close>

fun String_includes :: "string \<Rightarrow> string \<Rightarrow> bool" where
  "String_includes [] t = (t = [])"
| "String_includes (x # s) t = (prefix t (x # s) \<or> String_includes s t)"

text \<open>
  \<^verbatim>\<open>Array.prototype.sort(compareFn)\<close>. The source calls the platform's sort, which
  ECMAScript (since the 2019 edition) requires to be stable: elements that compare equal
  keep their order. It is modelled as the stable insertion sort: an element goes in
  front of the first later element it does not compare greater than.
\<close>

fun insert_sorted :: "('a \<Rightarrow> 'a \<Rightarrow> rat) \<Rightarrow> 'a \<Rightarrow> 'a list \<Rightarrow> 'a list" where
  "insert_sorted compareFn a [] = [a]"
| "insert_sorted compareFn a (b # bs) =
     (if compareFn a b \<le> 0 then a # b # bs else b # insert_sorted compareFn a bs)"

definition Array_sort :: "('a \<Rightarrow> 'a \<Rightarrow> rat) \<Rightarrow> 'a list \<Rightarrow> 'a list" where
  "Array_sort compareFn xs = foldr (insert_sorted compareFn) xs []"

text \<open>
  \<^verbatim>\<open>filteredProducts()\<close>, lines 102-108, as a function of the platform's
  \<open>toLowerCase\<close> and the four state variables it reads. \<^verbatim>\<open>filter\<close> builds a new array, so the in-place sort never touches
  \<^verbatim>\<open>products\<close>.
\<close>

definition filteredProducts ::
  "(string \<Rightarrow> string) \<Rightarrow> product list \<Rightarrow> string \<Rightarrow> string \<Rightarrow> string \<Rightarrow> product list" where
  "filteredProducts toLowerCase products query category sortMode =
     (let out = filter (\<lambda>p. String_includes (toLowerCase (p_name p)) (toLowerCase query)
                            \<or> String_includes (toLowerCase (p_desc p)) (toLowerCase query)) products;
          out = (if category \<noteq> ''All'' then filter (\<lambda>p. p_category p = category) out else out);
          out = (if sortMode = ''price-asc''
                 then Array_sort (\<lambda>a b. p_price a - p_price b) out else out);
          out = (if sortMode = ''price-desc''
                 then Array_sort (\<lambda>a b. p_price b - p_price a) out else out)
      in out)"

text \<open>
  The filter as the specification words it. In general, \<open>needle\<close> occurs in \<open>hay\<close>
  as a substring once the platform has folded the case of both (\<open>ci_substring\<close>). For
  ASCII text the same is said without any folding function (\<open>ascii_ci_substring\<close>):
  some stretch of \<open>hay\<close> agrees with \<open>needle\<close> position by position, where two
  characters agree when they are equal or are the capital and the small form of one
  letter of the alphabet.
\<close>

definition ci_substring :: "(string \<Rightarrow> string) \<Rightarrow> string \<Rightarrow> string \<Rightarrow> bool" where
  "ci_substring toLowerCase needle hay \<longleftrightarrow>
     (\<exists>pre post. toLowerCase hay = pre @ toLowerCase needle @ post)"

definition visible :: "(string \<Rightarrow> string) \<Rightarrow> string \<Rightarrow> string \<Rightarrow> product \<Rightarrow> bool" where
  "visible toLowerCase searchText category p \<longleftrightarrow>
     (ci_substring toLowerCase searchText (p_name p)
      \<or> ci_substring toLowerCase searchText (p_desc p))
     \<and> (category = ''All'' \<or> p_category p = category)"

definition upper_letters :: string where
  "upper_letters = ''ABCDEFGHIJKLMNOPQRSTUVWXYZ''"

definition lower_letters :: string where
  "lower_letters = ''abcdefghijklmnopqrstuvwxyz''"

definition same_letter :: "char \<Rightarrow> char \<Rightarrow> bool" where
  "same_letter a b \<longleftrightarrow>
     a = b \<or> (a, b) \<in> set (zip upper_letters lower_letters)
           \<or> (b, a) \<in> set (zip upper_letters lower_letters)"

definition ascii_ci_substring :: "string \<Rightarrow> string \<Rightarrow> bool" where
  "ascii_ci_substring needle hay \<longleftrightarrow>
     (\<exists>pre mid post. hay = pre @ mid @ post \<and> list_all2 same_letter needle mid)"

section \<open>Order builder\<close>

record customer =
  c_name :: string
  c_email :: string
  c_address :: string

record item =
  i_id :: string
  i_name :: string
  i_qty :: int
  i_unitPrice :: rat

record order =
  o_id :: string
  o_date :: string
  o_customer :: customer
  o_items :: "item list"
  o_subtotal :: rat
  o_note :: string

text \<open>The part of the component's state that \<^verbatim>\<open>handlePlaceOrder\<close> reads and writes.\<close>

record state =
  st_cart :: cart
  st_checkoutOpen :: bool
  st_orderInfo :: customer
  st_orderPlaced :: "order option"

text \<open>What the handler shows the user: an alert, or the receipt offered for download.\<close>

datatype effect = Alert string | Download string order

text \<open>
  \<^verbatim>\<open>'ORD-' + Date.now()\<close> appends the decimal numeral of the clock reading, an
  integer number of milliseconds.
\<close>

definition digit_char :: "nat \<Rightarrow> char" where
  "digit_char d = ''0123456789'' ! d"

fun digits :: "nat \<Rightarrow> string" where
  "digits n = (if n < 10 then [digit_char n] else digits (n div 10) @ [digit_char (n mod 10)])"

declare digits.simps [simp del]

definition Number_toString :: "int \<Rightarrow> string" where
  "Number_toString i = (if i < 0 then CHR ''-'' # digits (nat (- i)) else digits (nat i))"

text \<open>
  The order object of lines 122-132. \<open>now\<close> is the reading \<^verbatim>\<open>Date.now()\<close>, \<open>isoDate\<close>
  the text \<^verbatim>\<open>new Date().toISOString()\<close>. \<^verbatim>\<open>p?.name || id\<close> falls back to the id
  for a missing product and for an empty name, \<^verbatim>\<open>p?.price || 0\<close> to 0 for a missing
  product. The dash of the note is written as its three UTF-8 bytes.
\<close>

definition buildOrder :: "int \<Rightarrow> string \<Rightarrow> product list \<Rightarrow> state \<Rightarrow> order" where
  "buildOrder now isoDate products st =
     \<lparr>o_id = ''ORD-'' @ Number_toString now,
      o_date = isoDate,
      o_customer = st_orderInfo st,
      o_items = map (\<lambda>(id, qty).
                  let p = find (\<lambda>x. p_id x = id) products
                  in \<lparr>i_id = id,
                      i_name = (case p of None \<Rightarrow> id
                                | Some p \<Rightarrow> if p_name p = [] then id else p_name p),
                      i_qty = qty,
                      i_unitPrice = (case p of None \<Rightarrow> 0
                                     | Some p \<Rightarrow> if p_price p = 0 then 0 else p_price p)\<rparr>)
                  (st_cart st),
      o_subtotal = cartTotal (st_cart st) products,
      o_note = ''This is a simulated checkout '' @ [CHR 0xE2, CHR 0x80, CHR 0x94]
               @ '' integrate a payment gateway for real orders.''\<rparr>"

text \<open>
  \<^verbatim>\<open>handlePlaceOrder(e)\<close>, lines 110-146. Each early return leaves the state as it
  was; the success path stores the order, clears the cart, closes the checkout panel
  and offers the receipt under the name \<^verbatim>\<open>${order.id}_receipt.json\<close>.
\<close>

definition handlePlaceOrder :: "int \<Rightarrow> string \<Rightarrow> product list \<Rightarrow> state \<Rightarrow> effect \<times> state" where
  "handlePlaceOrder now isoDate products st =
     (if c_name (st_orderInfo st) = [] \<or> c_email (st_orderInfo st) = []
         \<or> c_address (st_orderInfo st) = []
      then (Alert ''Please complete name, email and address.'', st)
      else if itemsInCart (st_cart st) = 0
      then (Alert ''Cart is empty. Add some cookies first.'', st)
      else
        let order = buildOrder now isoDate products st
        in (Download (o_id order @ ''_receipt.json'') order,
            st\<lparr>st_orderPlaced := Some order, st_cart := clearCart, st_checkoutOpen := False\<rparr>))"

section \<open>Persistence\<close>

text \<open>
  The values \<^verbatim>\<open>JSON.parse\<close> can return, and the two ways a platform call can end.
\<close>

datatype json =
  JNull | JBool bool | JNumber rat | JString string
| JArray "json list" | JObject "(string \<times> json) list"

datatype 'a completion = Throws | Returns 'a

text \<open>
  The initialiser of the cart state, lines 53-60. \<open>getItem\<close> is how
  \<^verbatim>\<open>localStorage.getItem('cookie_shop_cart')\<close> ends (\<open>Returns None\<close> is
  \<^verbatim>\<open>null\<close>: nothing stored), \<open>parse\<close> is \<^verbatim>\<open>JSON.parse\<close>. The empty string is
  falsy, like \<^verbatim>\<open>null\<close>; the \<^verbatim>\<open>catch\<close> turns either exception into \<^verbatim>\<open>{}\<close>.
\<close>

definition loadCart :: "string option completion \<Rightarrow> (string \<Rightarrow> json completion) \<Rightarrow> json" where
  "loadCart getItem parse =
     (case getItem of
        Throws \<Rightarrow> JObject []
      | Returns None \<Rightarrow> JObject []
      | Returns (Some raw) \<Rightarrow>
          if raw = [] then JObject []
          else (case parse raw of Throws \<Rightarrow> JObject [] | Returns v \<Rightarrow> v))"

text \<open>A mapping from product id to quantity: an object whose values are numbers.\<close>

fun is_number :: "json \<Rightarrow> bool" where
  "is_number (JNumber n) = True"
| "is_number _ = False"

fun is_mapping :: "json \<Rightarrow> bool" where
  "is_mapping (JObject kvs) = list_all (\<lambda>(k, v). is_number v) kvs"
| "is_mapping _ = False"

text \<open>
  The first render calls \<^verbatim>\<open>itemsInCart()\<close> (line 159), which starts with
  \<^verbatim>\<open>Object.values(cart)\<close> (line 92). \<^verbatim>\<open>Object.values\<close> throws a
  \<^verbatim>\<open>TypeError\<close> exactly when its argument is \<^verbatim>\<open>null\<close> (or
  \<^verbatim>\<open>undefined\<close>, which \<^verbatim>\<open>JSON.parse\<close> never returns).
\<close>

fun Object_values_throws :: "json \<Rightarrow> bool" where
  "Object_values_throws JNull = True"
| "Object_values_throws _ = False"

section \<open>Sample data\<close>

text \<open>
  A customer, a state with two chocolate chip cookies in the cart and the checkout
  panel open, and one session: an order placed from that state, then three oatmeal
  cookies added and a second order placed at the same clock reading.
\<close>

definition jo :: customer where
  "jo = \<lparr>c_name = ''Jo'', c_email = ''j@x.com'', c_address = ''1 St''\<rparr>"

definition sample_state :: state where
  "sample_state = \<lparr>st_cart = [(''cookies-01'', 2)], st_checkoutOpen = True,
     st_orderInfo = jo, st_orderPlaced = None\<rparr>"

definition first_submit :: "effect \<times> state" where
  "first_submit =
     handlePlaceOrder 1700000000000 ''2023-11-14T22:13:20.000Z'' SAMPLE_PRODUCTS sample_state"

definition second_submit :: "effect \<times> state" where
  "second_submit =
     handlePlaceOrder 1700000000000 ''2023-11-14T22:13:20.000Z'' SAMPLE_PRODUCTS
       ((snd first_submit)\<lparr>st_cart := addToCart ''cookies-02'' 3 (st_cart (snd first_submit)),
                             st_checkoutOpen := True\<rparr>)"

text \<open>
  A catalog of one product whose name is the letter A followed by the Greek capital
  sigma (U+03A3, the bytes CE A3), and a stand-in for the platform's
  \<^verbatim>\<open>toLowerCase\<close> on the texts of the examples. On ASCII text it is the ASCII
  folding. On the two texts with a sigma it returns what the platform returns: a
  capital sigma that ends a word becomes the final small sigma (U+03C2, the bytes
  CF 82), a capital sigma on its own becomes the small sigma (U+03C3, the bytes CF 83).
\<close>

definition capital_sigma :: string where
  "capital_sigma = [CHR 0xCE, CHR 0xA3]"

definition sigma_product :: product where
  "sigma_product =
     \<lparr>p_id = ''cookies-05'', p_name = ''A'' @ capital_sigma, p_price = 4,
      p_category = ''Classic'', p_desc = ''Almond shortbread.'', p_img = ''''\<rparr>"

definition sample_toLowerCase :: "string \<Rightarrow> string" where
  "sample_toLowerCase s =
     (if s = ''A'' @ capital_sigma then ''a'' @ [CHR 0xCF, CHR 0x82]
      else if s = capital_sigma then [CHR 0xCF, CHR 0x83]
      else ascii_toLowerCase s)"

text \<open>
  A stand-in for \<^verbatim>\<open>JSON.parse\<close> on the blobs of the examples: it returns what
  \<^verbatim>\<open>JSON.parse\<close> returns for \<^verbatim>\<open>null\<close>, \<^verbatim>\<open>{}\<close> and \<^verbatim>\<open>{"cookies-01":2}\<close>
  (\<open>CHR 0x22\<close> is the double quote), and throws for the malformed \<^verbatim>\<open>{bad\<close>.
\<close>

definition sample_parse :: "string \<Rightarrow> json completion" where
  "sample_parse s =
     (if s = ''null'' then Returns JNull
      else if s = ''{}'' then Returns (JObject [])
      else if s = ''{'' @ [CHR 0x22] @ ''cookies-01'' @ [CHR 0x22] @ '':2}''
      then Returns (JObject [(''cookies-01'', JNumber 2)])
      else Throws)"

section \<open>Properties of the cart store\<close>

lemma or_zero_eq: "or_zero x = (case x of None \<Rightarrow> 0 | Some v \<Rightarrow> v)"
  by (cases x) simp_all

lemma set_update_cases:
  "(k, v) \<in> set (AList.update k' v' al) \<Longrightarrow> (k, v) = (k', v') \<or> (k, v) \<in> set al"
  by (induction al) (auto split: if_splits)

lemma set_delete_subset: "(k, v) \<in> set (AList.delete k' al) \<Longrightarrow> (k, v) \<in> set al"
  by (simp add: AList.delete_eq)

text \<open>
  C5. \<^verbatim>\<open>updateQty\<close> with a quantity \<open>q \<le> 0\<close> removes the key: afterwards the id is
  no property of the cart at all. With \<open>q > 0\<close> the entry is exactly \<open>q\<close>, whatever
  the cart held for the id before.
\<close>

theorem updateQty_sets_or_removes:
  "(q \<le> 0 \<longrightarrow> productId \<notin> fst ` set (updateQty productId q c)
      \<and> map_of (updateQty productId q c) productId = None)
   \<and> (0 < q \<longrightarrow> map_of (updateQty productId q c) productId = Some q)"
  by (simp add: updateQty_def AList.delete_notin_dom AList.delete_conv' AList.update_conv')

theorem updateQty_sets_or_removes_witness:
  "map_of (updateQty ''cookies-01'' 0 [(''cookies-01'', 2), (''cookies-02'', 1)]) ''cookies-01'' = None
   \<and> map_of (updateQty ''cookies-01'' (- 5) [(''cookies-01'', 2)]) ''cookies-01'' = None
   \<and> map_of (updateQty ''cookies-01'' 7 [(''cookies-01'', 2)]) ''cookies-01'' = Some 7
   \<and> map_of (updateQty ''cookies-01'' 7 []) ''cookies-01'' = Some 7"
  using updateQty_sets_or_removes [of 0 "''cookies-01''" "[(''cookies-01'', 2), (''cookies-02'', 1)]"]
    updateQty_sets_or_removes [of "- 5" "''cookies-01''" "[(''cookies-01'', 2)]"]
    updateQty_sets_or_removes [of 7 "''cookies-01''" "[(''cookies-01'', 2)]"]
    updateQty_sets_or_removes [of 7 "''cookies-01''" "[]"]
  by simp

text \<open>
  C10. \<^verbatim>\<open>addToCart\<close> and \<^verbatim>\<open>updateQty\<close> for a product id \<open>p\<close> leave every other
  key as it was: present with the same quantity, or absent.
\<close>

theorem cart_update_frame:
  "k \<noteq> p \<Longrightarrow>
     map_of (addToCart p q c) k = map_of c k \<and> map_of (updateQty p q c) k = map_of c k"
  by (simp add: addToCart_def updateQty_def AList.update_conv')

theorem cart_update_frame_witness:
  "map_of (addToCart ''cookies-01'' 3 [(''cookies-02'', 4)]) ''cookies-02'' = Some 4
   \<and> map_of (updateQty ''cookies-01'' 0 [(''cookies-01'', 1), (''cookies-02'', 4)]) ''cookies-02'' = Some 4
   \<and> map_of (addToCart ''cookies-01'' 3 [(''cookies-02'', 4)]) ''cookies-03'' = None"
proof -
  have ne: "''cookies-02'' \<noteq> ''cookies-01''" "''cookies-03'' \<noteq> ''cookies-01''"
    by simp_all
  show ?thesis
    using cart_update_frame [OF ne(1), of 3 "[(''cookies-02'', 4)]"]
      cart_update_frame [OF ne(1), of 0 "[(''cookies-01'', 1), (''cookies-02'', 4)]"]
      cart_update_frame [OF ne(2), of 3 "[(''cookies-02'', 4)]"]
    by simp
qed

lemma addToCart_entry:
  "map_of (addToCart p q c) p = Some ((case map_of c p of None \<Rightarrow> 0 | Some v \<Rightarrow> v) + q)"
  by (simp add: addToCart_def AList.update_conv' or_zero_eq)

text \<open>
  C6, as the code has it. \<^verbatim>\<open>addToCart\<close> has no test on the quantity: for every
  integer \<open>q\<close>, positive or not, the entry becomes the old quantity (0 when the id is
  absent) plus \<open>q\<close>. Adding 1 twice to an absent id gives 2. The call leaves the
  mapping as it was only when \<open>q = 0\<close> and the id is already present.
\<close>

theorem addToCart_increments:
  "map_of (addToCart p q c) p = Some ((case map_of c p of None \<Rightarrow> 0 | Some v \<Rightarrow> v) + q)
   \<and> (map_of c p = None \<longrightarrow> map_of (addToCart p 1 (addToCart p 1 c)) p = Some 2)
   \<and> (map_of (addToCart p q c) = map_of c \<longleftrightarrow> q = 0 \<and> map_of c p \<noteq> None)"
proof (intro conjI)
  show "map_of (addToCart p q c) p = Some ((case map_of c p of None \<Rightarrow> 0 | Some v \<Rightarrow> v) + q)"
    by (rule addToCart_entry)
  show "map_of c p = None \<longrightarrow> map_of (addToCart p 1 (addToCart p 1 c)) p = Some 2"
    by (simp add: addToCart_entry)
  show "map_of (addToCart p q c) = map_of c \<longleftrightarrow> q = 0 \<and> map_of c p \<noteq> None"
  proof
    assume "map_of (addToCart p q c) = map_of c"
    then have "map_of c p = Some ((case map_of c p of None \<Rightarrow> 0 | Some v \<Rightarrow> v) + q)"
      using addToCart_entry [of p q c] by simp
    then show "q = 0 \<and> map_of c p \<noteq> None"
      by (cases "map_of c p") simp_all
  next
    assume "q = 0 \<and> map_of c p \<noteq> None"
    then obtain v where "q = 0" "map_of c p = Some v" by auto
    then show "map_of (addToCart p q c) = map_of c"
      by (simp add: addToCart_def AList.update_conv' fun_upd_idem)
  qed
qed

theorem addToCart_increments_witness:
  "map_of (addToCart ''cookies-01'' 1 (addToCart ''cookies-01'' 1 [])) ''cookies-01'' = Some 2
   \<and> map_of (addToCart ''cookies-01'' 3 [(''cookies-01'', 2)]) ''cookies-01'' = Some 5"
  using addToCart_increments [of "''cookies-01''" 1 "[]"]
    addToCart_increments [of "''cookies-01''" 3 "[(''cookies-01'', 2)]"]
  by simp

text \<open>
  C6, as the claim states it, fails: a non-positive quantity is not a no-op. Adding
  \<open>-1\<close> to an entry of 2 leaves 1, and adding 0 for an absent id creates an entry
  with quantity 0.
\<close>

theorem addToCart_nonpositive_counterexample:
  "addToCart ''cookies-01'' (- 1) [(''cookies-01'', 2)] = [(''cookies-01'', 1)]
   \<and> addToCart ''cookies-01'' (- 1) [(''cookies-01'', 2)] \<noteq> [(''cookies-01'', 2)]
   \<and> addToCart ''cookies-02'' 0 [] = [(''cookies-02'', 0)]"
  by (simp add: addToCart_def)

lemma reachable_quantities:
  "reachable c \<Longrightarrow> (k, v) \<in> set c \<Longrightarrow> 1 \<le> v"
proof (induction arbitrary: k v rule: reachable.induct)
  case reach_empty
  then show ?case by simp
next
  case (reach_add c qty productId)
  from reach_add.prems
  consider "(k, v) = (productId, or_zero (map_of c productId) + qty)" | "(k, v) \<in> set c"
    unfolding addToCart_def by (auto dest: set_update_cases)
  then show ?case
  proof cases
    case 1
    have "0 \<le> or_zero (map_of c productId)"
    proof (cases "map_of c productId")
      case None
      then show ?thesis by simp
    next
      case (Some v0)
      then have "(productId, v0) \<in> set c" by (rule map_of_SomeD)
      then have "1 \<le> v0" by (rule reach_add.IH)
      with Some show ?thesis by simp
    qed
    with 1 \<open>0 < qty\<close> show ?thesis by simp
  next
    case 2
    then show ?thesis by (rule reach_add.IH)
  qed
next
  case (reach_update c productId qty)
  from reach_update.prems
  consider "(k, v) = (productId, qty) \<and> 0 < qty" | "(k, v) \<in> set c"
    unfolding updateQty_def
    by (auto dest: set_update_cases set_delete_subset split: if_splits)
  then show ?case
  proof cases
    case 1
    then show ?thesis by simp
  next
    case 2
    then show ?thesis by (rule reach_update.IH)
  qed
next
  case (reach_clear c)
  then show ?case by (simp add: clearCart_def)
qed

text \<open>
  C9. Every cart reachable from the empty cart by \<^verbatim>\<open>addToCart\<close> with a positive
  quantity, \<^verbatim>\<open>updateQty\<close> with any quantity and \<^verbatim>\<open>clearCart\<close> stores only
  quantities \<open>\<ge> 1\<close>: no entry of the list, and so no key of the mapping, has a
  quantity \<open>\<le> 0\<close>.
\<close>

theorem reachable_cart_invariant:
  "reachable c \<Longrightarrow>
     (\<forall>(k, v) \<in> set c. 1 \<le> v) \<and> (\<forall>k v. map_of c k = Some v \<longrightarrow> 1 \<le> v)"
  by (auto dest: reachable_quantities map_of_SomeD)

theorem reachable_cart_invariant_witness:
  "reachable (updateQty ''cookies-02'' 0 (addToCart ''cookies-02'' 3 (addToCart ''cookies-01'' 1 [])))
   \<and> updateQty ''cookies-02'' 0 (addToCart ''cookies-02'' 3 (addToCart ''cookies-01'' 1 []))
       = [(''cookies-01'', 1)]
   \<and> list_all (\<lambda>(k, v). 1 \<le> v)
        (updateQty ''cookies-02'' 0 (addToCart ''cookies-02'' 3 (addToCart ''cookies-01'' 1 [])))"
proof -
  let ?c = "updateQty ''cookies-02'' 0 (addToCart ''cookies-02'' 3 (addToCart ''cookies-01'' 1 []))"
  have r: "reachable ?c"
    by (intro reachable.intros) simp_all
  have e: "?c = [(''cookies-01'', 1)]"
    by (simp add: updateQty_def addToCart_def)
  from reachable_cart_invariant [OF r] have "list_all (\<lambda>(k, v). 1 \<le> v) ?c"
    unfolding list_all_iff by blast
  with r e show ?thesis by blast
qed

section \<open>Properties of the total\<close>

lemma cartTotal_foldl:
  "foldl (\<lambda>sum (id, qty).
              sum + (case find (\<lambda>x. p_id x = id) products of
                       Some p \<Rightarrow> p_price p * of_int qty | None \<Rightarrow> 0)) a c
   = a + spec_total c products"
proof (induction c arbitrary: a)
  case Nil
  then show ?case by (simp add: spec_total_def)
next
  case (Cons e c)
  obtain k q where e: "e = (k, q)" by (cases e)
  show ?case
    by (simp add: Cons.IH e spec_total_def mult.commute split: option.splits)
qed

lemma cartTotal_eq_spec: "cartTotal c products = spec_total c products"
  by (simp add: cartTotal_def Let_def cartTotal_foldl)

lemma spec_total_nonneg:
  assumes "\<forall>(k, q) \<in> set c. 0 \<le> q" and "\<forall>p \<in> set catalog. 0 \<le> p_price p"
  shows "0 \<le> spec_total c catalog"
  unfolding spec_total_def
proof (rule sum_list_nonneg)
  fix x
  assume "x \<in> set (map (\<lambda>(k, q). case find (\<lambda>x. p_id x = k) catalog of
                        Some p \<Rightarrow> of_int q * p_price p
                      | None \<Rightarrow> 0) c)"
  then obtain k q where kq: "(k, q) \<in> set c"
    and x: "x = (case find (\<lambda>x. p_id x = k) catalog of Some p \<Rightarrow> of_int q * p_price p | None \<Rightarrow> 0)"
    by auto
  from kq assms(1) have q: "0 \<le> q" by auto
  show "0 \<le> x"
  proof (cases "find (\<lambda>x. p_id x = k) catalog")
    case None
    with x show ?thesis by simp
  next
    case (Some p)
    then have "p \<in> set catalog"
      by (auto simp: find_Some_iff)
    with assms(2) have "0 \<le> p_price p" by simp
    with q Some x show ?thesis by simp
  qed
qed

text \<open>
  C3, as the code has it. For every cart and every catalog \<^verbatim>\<open>cartTotal\<close> is the sum
  over the cart's entries of quantity times the price of the first product with that
  id, and 0 for an id with no product; the fold has no failing step. The total is not
  negative when no quantity in the cart and no price in the catalog is negative. The
  code checks neither.
\<close>

theorem cartTotal_sum:
  "cartTotal c catalog = spec_total c catalog
   \<and> ((\<forall>(k, q) \<in> set c. 0 \<le> q) \<and> (\<forall>p \<in> set catalog. 0 \<le> p_price p)
        \<longrightarrow> 0 \<le> cartTotal c catalog)"
  by (simp add: cartTotal_eq_spec spec_total_nonneg)

theorem cartTotal_sum_witness:
  "cartTotal [(''cookies-01'', 2), (''gone'', 1), (''cookies-03'', 1)] SAMPLE_PRODUCTS = 14
   \<and> spec_total [(''cookies-01'', 2), (''gone'', 1), (''cookies-03'', 1)] SAMPLE_PRODUCTS = 14
   \<and> 0 \<le> cartTotal [(''cookies-01'', 2), (''gone'', 1), (''cookies-03'', 1)] SAMPLE_PRODUCTS"
proof -
  let ?c = "[(''cookies-01'', 2), (''gone'', 1), (''cookies-03'', 1)] :: cart"
  have q: "\<forall>(k, q) \<in> set ?c. 0 \<le> q" by simp
  have p: "\<forall>p \<in> set SAMPLE_PRODUCTS. 0 \<le> p_price p"
    by (simp add: SAMPLE_PRODUCTS_def)
  have v: "cartTotal ?c SAMPLE_PRODUCTS = 14"
    by (simp add: cartTotal_def SAMPLE_PRODUCTS_def)
  from cartTotal_sum [of ?c SAMPLE_PRODUCTS] q p v show ?thesis by simp
qed

text \<open>
  C3, as the claim states it, fails: a cart that holds the quantity \<open>-1\<close> (which
  \<^verbatim>\<open>addToCart\<close> stores when it is given) has a negative total.
\<close>

theorem cartTotal_negative_counterexample:
  "cartTotal [(''cookies-01'', - 1)] SAMPLE_PRODUCTS = - (9 / 2)
   \<and> cartTotal [(''cookies-01'', - 1)] SAMPLE_PRODUCTS < 0"
  by (simp add: cartTotal_def SAMPLE_PRODUCTS_def)

section \<open>Properties of the query engine\<close>

lemma String_includes_sublist: "String_includes s t \<longleftrightarrow> sublist t s"
  by (induction s) (simp_all add: sublist_Cons_right)

lemma includes_ci_substring:
  "String_includes (toLowerCase hay) (toLowerCase needle) \<longleftrightarrow> ci_substring toLowerCase needle hay"
  by (simp add: String_includes_sublist ci_substring_def sublist_def)

lemma insert_sorted_asc: "insert_sorted (\<lambda>a b. f a - f b) x xs = insort_key f x xs"
  by (induction xs) simp_all

lemma insert_sorted_desc: "insert_sorted (\<lambda>a b. f b - f a) x xs = insort_key (\<lambda>a. - f a) x xs"
  by (induction xs) simp_all

lemma Array_sort_asc: "Array_sort (\<lambda>a b. f a - f b) xs = sort_key f xs"
  by (induction xs) (simp_all add: Array_sort_def insert_sorted_asc)

lemma Array_sort_desc: "Array_sort (\<lambda>a b. f b - f a) xs = sort_key (\<lambda>a. - f a) xs"
  by (induction xs) (simp_all add: Array_sort_def insert_sorted_desc)

lemma filtered_featured:
  "filteredProducts lc ps q cat ''featured'' = filter (visible lc q cat) ps"
  by (auto simp: filteredProducts_def Let_def visible_def includes_ci_substring intro: filter_cong)

lemma filtered_asc:
  "filteredProducts lc ps q cat ''price-asc'' = sort_key p_price (filter (visible lc q cat) ps)"
proof -
  have "filteredProducts lc ps q cat ''price-asc''
        = Array_sort (\<lambda>a b. p_price a - p_price b) (filteredProducts lc ps q cat ''featured'')"
    by (simp add: filteredProducts_def Let_def)
  then show ?thesis by (simp only: filtered_featured Array_sort_asc)
qed

lemma filtered_desc:
  "filteredProducts lc ps q cat ''price-desc''
   = sort_key (\<lambda>p. - p_price p) (filter (visible lc q cat) ps)"
proof -
  have "filteredProducts lc ps q cat ''price-desc''
        = Array_sort (\<lambda>a b. p_price b - p_price a) (filteredProducts lc ps q cat ''featured'')"
    by (simp add: filteredProducts_def Let_def)
  then show ?thesis by (simp only: filtered_featured Array_sort_desc)
qed

subsection \<open>Case folding on ASCII text\<close>

lemma letters_zip:
  "zip upper_letters lower_letters = map (\<lambda>n. (char_of n, char_of (n + 32))) [65..<91::nat]"
  by code_simp

lemma letters_zip_iff:
  "(x, y) \<in> set (zip upper_letters lower_letters)
   \<longleftrightarrow> 65 \<le> (of_char x :: nat) \<and> (of_char x :: nat) \<le> 90 \<and> (of_char y :: nat) = of_char x + 32"
proof
  assume "(x, y) \<in> set (zip upper_letters lower_letters)"
  then obtain n :: nat where n: "65 \<le> n" "n < 91" and x: "x = char_of n" and y: "y = char_of (n + 32)"
    unfolding letters_zip by auto
  from n have "n mod 256 = n" "(n + 32) mod 256 = n + 32" by simp_all
  with n x y show "65 \<le> (of_char x :: nat) \<and> (of_char x :: nat) \<le> 90
      \<and> (of_char y :: nat) = of_char x + 32"
    by simp
next
  assume a: "65 \<le> (of_char x :: nat) \<and> (of_char x :: nat) \<le> 90
      \<and> (of_char y :: nat) = of_char x + 32"
  define n :: nat where "n = of_char x"
  have x: "x = char_of n" by (simp add: n_def)
  from a have "(of_char y :: nat) = n + 32" by (simp add: n_def)
  then have "(char_of (of_char y :: nat) :: char) = char_of (n + 32)" by (rule arg_cong)
  then have y: "y = char_of (n + 32)" by simp
  from a have "n \<in> {65..<91}" by (simp add: n_def)
  with x y show "(x, y) \<in> set (zip upper_letters lower_letters)"
    unfolding letters_zip set_map set_upt by blast
qed

lemma of_char_lower_char:
  "(of_char (lower_char a) :: nat)
   = (if 65 \<le> (of_char a :: nat) \<and> (of_char a :: nat) \<le> 90 then of_char a + 32 else of_char a)"
proof -
  have "(of_char a + 32 :: nat) mod 256 = of_char a + 32" if "(of_char a :: nat) \<le> 90"
    using that by simp
  then show ?thesis by (simp add: lower_char_def Let_def)
qed

lemma lower_char_eq_iff: "lower_char a = lower_char b \<longleftrightarrow> same_letter a b"
proof -
  have "lower_char a = lower_char b
        \<longleftrightarrow> (of_char (lower_char a) :: nat) = of_char (lower_char b)"
    by simp
  also have "\<dots> \<longleftrightarrow> same_letter a b"
    unfolding same_letter_def letters_zip_iff of_char_lower_char
    using of_char_eq_iff [of a b, where ?'a = nat] by auto
  finally show ?thesis .
qed

lemma map_eq_iff_all2: "map f xs = map f ys \<longleftrightarrow> list_all2 (\<lambda>a b. f a = f b) xs ys"
  by (induction xs ys rule: list_induct2') auto

lemma sublist_map_iff:
  "sublist (map f xs) (map f ys)
   \<longleftrightarrow> (\<exists>pre mid post. ys = pre @ mid @ post \<and> map f xs = map f mid)"
proof
  assume "sublist (map f xs) (map f ys)"
  then obtain ps ss where "map f ys = ps @ map f xs @ ss"
    by (auto simp: sublist_def)
  then obtain pre rest where ys: "ys = pre @ rest" and "map f xs @ ss = map f rest"
    unfolding map_eq_append_conv by blast
  then obtain mid post where "rest = mid @ post" and "map f xs = map f mid"
    unfolding append_eq_map_conv by blast
  with ys show "\<exists>pre mid post. ys = pre @ mid @ post \<and> map f xs = map f mid"
    by blast
next
  assume "\<exists>pre mid post. ys = pre @ mid @ post \<and> map f xs = map f mid"
  then obtain pre mid post where "ys = pre @ mid @ post" "map f xs = map f mid" by blast
  then show "sublist (map f xs) (map f ys)"
    by (auto simp: sublist_def)
qed

lemma ascii_ci_substring_iff:
  "ascii_ci_substring needle hay \<longleftrightarrow> sublist (map lower_char needle) (map lower_char hay)"
  by (simp add: ascii_ci_substring_def sublist_map_iff map_eq_iff_all2 lower_char_eq_iff)

lemma ci_substring_ascii:
  assumes "ascii_folding lc" and "is_ascii needle" and "is_ascii hay"
  shows "ci_substring lc needle hay \<longleftrightarrow> ascii_ci_substring needle hay"
proof -
  from assms have "lc needle = map lower_char needle" "lc hay = map lower_char hay"
    by (simp_all add: ascii_folding_def ascii_toLowerCase_def)
  then show ?thesis
    by (simp add: ci_substring_def ascii_ci_substring_iff sublist_def)
qed

lemma ci_substring_empty:
  assumes "ascii_folding lc"
  shows "ci_substring lc [] hay"
proof -
  from assms have "lc [] = []"
    by (simp add: ascii_folding_def ascii_toLowerCase_def is_ascii_def)
  then show ?thesis
    unfolding ci_substring_def by (metis append_Nil)
qed

lemma ascii_folding_ascii_toLowerCase: "ascii_folding ascii_toLowerCase"
  by (simp add: ascii_folding_def)

lemma filteredProducts_examples:
  "map p_id (filteredProducts ascii_toLowerCase SAMPLE_PRODUCTS ''CHOC'' ''All'' ''price-desc'')
     = [''cookies-03'', ''cookies-01'']"
  "map p_id (filteredProducts ascii_toLowerCase SAMPLE_PRODUCTS ''oatMEAL'' ''All'' ''featured'')
     = [''cookies-02'']"
  "map p_id (filteredProducts ascii_toLowerCase SAMPLE_PRODUCTS [] ''Classic'' ''price-asc'')
     = [''cookies-01'', ''cookies-04'']"
  "filteredProducts ascii_toLowerCase SAMPLE_PRODUCTS [] ''All'' ''featured'' = SAMPLE_PRODUCTS"
  "filteredProducts ascii_toLowerCase SAMPLE_PRODUCTS [] ''Vegan'' ''featured'' = []"
  by code_simp+

text \<open>
  C4, as the code has it. With \<open>visible toLowerCase q cat\<close> the products whose
  name or description, lower-cased by the platform, contains the lower-cased \<open>q\<close>
  as a substring, and whose
  category is \<open>cat\<close> (any category for \<^verbatim>\<open>All\<close>): under \<^verbatim>\<open>featured\<close> the result is
  exactly the visible products in catalog order. Under \<^verbatim>\<open>price-asc\<close> and
  \<^verbatim>\<open>price-desc\<close> it holds the same products (as a multiset), ordered by price upwards
  or downwards, and for every price \<open>k\<close> the products of price \<open>k\<close> stand in their
  catalog order: the sort is stable. All this holds whatever the platform's folding is.
  With the platform's folding of ASCII text, the empty search text matches every text,
  and on ASCII text the match is the case-insensitive substring match said letter by
  letter, with no folding function.
\<close>

theorem filteredProducts_spec:
  "filteredProducts toLowerCase ps q cat ''featured'' = filter (visible toLowerCase q cat) ps
   \<and> mset (filteredProducts toLowerCase ps q cat ''price-asc'')
       = mset (filter (visible toLowerCase q cat) ps)
   \<and> sorted_wrt (\<lambda>a b. p_price a \<le> p_price b) (filteredProducts toLowerCase ps q cat ''price-asc'')
   \<and> (\<forall>k. filter (\<lambda>p. p_price p = k) (filteredProducts toLowerCase ps q cat ''price-asc'')
           = filter (\<lambda>p. p_price p = k) (filter (visible toLowerCase q cat) ps))
   \<and> mset (filteredProducts toLowerCase ps q cat ''price-desc'')
       = mset (filter (visible toLowerCase q cat) ps)
   \<and> sorted_wrt (\<lambda>a b. p_price a \<ge> p_price b) (filteredProducts toLowerCase ps q cat ''price-desc'')
   \<and> (\<forall>k. filter (\<lambda>p. p_price p = k) (filteredProducts toLowerCase ps q cat ''price-desc'')
           = filter (\<lambda>p. p_price p = k) (filter (visible toLowerCase q cat) ps))
   \<and> (ascii_folding toLowerCase \<longrightarrow> ci_substring toLowerCase [] hay)
   \<and> (ascii_folding toLowerCase \<and> is_ascii needle \<and> is_ascii hay
        \<longrightarrow> (ci_substring toLowerCase needle hay \<longleftrightarrow> ascii_ci_substring needle hay))"
proof (intro conjI allI impI)
  let ?v = "filter (visible toLowerCase q cat) ps"
  show "filteredProducts toLowerCase ps q cat ''featured'' = ?v"
    by (rule filtered_featured)
  show "mset (filteredProducts toLowerCase ps q cat ''price-asc'') = mset ?v"
    by (simp add: filtered_asc)
  show "mset (filteredProducts toLowerCase ps q cat ''price-desc'') = mset ?v"
    by (simp add: filtered_desc)
  have "sorted (map p_price (sort_key p_price ?v))"
    by (rule sorted_sort_key)
  then show "sorted_wrt (\<lambda>a b. p_price a \<le> p_price b)
               (filteredProducts toLowerCase ps q cat ''price-asc'')"
    by (simp add: filtered_asc sorted_map)
  have "sorted (map (\<lambda>p. - p_price p) (sort_key (\<lambda>p. - p_price p) ?v))"
    by (rule sorted_sort_key)
  then show "sorted_wrt (\<lambda>a b. p_price a \<ge> p_price b)
               (filteredProducts toLowerCase ps q cat ''price-desc'')"
    by (simp add: filtered_desc sorted_map)
  show "filter (\<lambda>p. p_price p = k) (filteredProducts toLowerCase ps q cat ''price-asc'')
        = filter (\<lambda>p. p_price p = k) ?v" for k
    by (simp only: filtered_asc sort_key_stable)
  show "filter (\<lambda>p. p_price p = k) (filteredProducts toLowerCase ps q cat ''price-desc'')
        = filter (\<lambda>p. p_price p = k) ?v" for k
    using sort_key_stable [of "\<lambda>p. - p_price p" "- k" ?v]
    by (simp add: filtered_desc)
  show "ci_substring toLowerCase [] hay" if "ascii_folding toLowerCase"
    using that by (rule ci_substring_empty)
  show "ci_substring toLowerCase needle hay \<longleftrightarrow> ascii_ci_substring needle hay"
    if "ascii_folding toLowerCase \<and> is_ascii needle \<and> is_ascii hay"
    using that by (simp add: ci_substring_ascii)
qed

text \<open>
  A search in capitals finds the two chocolate cookies, whose texts spell the word
  with small letters: \<^verbatim>\<open>CHOC\<close> is no substring of \<^verbatim>\<open>Double Chocolate\<close> as written,
  and is one once case is ignored.
\<close>

theorem filteredProducts_spec_witness:
  "ascii_folding ascii_toLowerCase
   \<and> map p_id (filteredProducts ascii_toLowerCase SAMPLE_PRODUCTS ''CHOC'' ''All'' ''price-desc'')
       = [''cookies-03'', ''cookies-01'']
   \<and> map p_id (filter (visible ascii_toLowerCase ''CHOC'' ''All'') SAMPLE_PRODUCTS)
       = [''cookies-01'', ''cookies-03'']
   \<and> ascii_ci_substring ''CHOC'' ''Double Chocolate''
   \<and> \<not> sublist ''CHOC'' ''Double Chocolate''"
proof -
  note spec = filteredProducts_spec [of ascii_toLowerCase SAMPLE_PRODUCTS "''CHOC''" "''All''"
      "''Double Chocolate''" "''CHOC''"]
  have f: "ascii_folding ascii_toLowerCase"
    by (rule ascii_folding_ascii_toLowerCase)
  have a: "is_ascii ''CHOC''" "is_ascii ''Double Chocolate''"
    by (simp_all add: is_ascii_def)
  have "String_includes (ascii_toLowerCase ''Double Chocolate'') (ascii_toLowerCase ''CHOC'')"
    by code_simp
  then have "ci_substring ascii_toLowerCase ''CHOC'' ''Double Chocolate''"
    by (simp only: includes_ci_substring)
  with spec f a have ci: "ascii_ci_substring ''CHOC'' ''Double Chocolate''"
    by blast
  have "map p_id (filteredProducts ascii_toLowerCase SAMPLE_PRODUCTS ''CHOC'' ''All'' ''featured'')
        = [''cookies-01'', ''cookies-03'']"
    by code_simp
  with spec have v: "map p_id (filter (visible ascii_toLowerCase ''CHOC'' ''All'') SAMPLE_PRODUCTS)
        = [''cookies-01'', ''cookies-03'']"
    by (simp only:)
  have d: "map p_id (filteredProducts ascii_toLowerCase SAMPLE_PRODUCTS ''CHOC'' ''All'' ''price-desc'')
        = [''cookies-03'', ''cookies-01'']"
    by code_simp
  have n: "\<not> sublist ''CHOC'' ''Double Chocolate''"
    by code_simp
  from f d v ci n show ?thesis by (intro conjI)
qed

lemma ascii_folding_sample: "ascii_folding sample_toLowerCase"
proof -
  have "\<not> is_ascii (''A'' @ capital_sigma)" "\<not> is_ascii capital_sigma"
    by (simp_all add: is_ascii_def capital_sigma_def)
  then have "sample_toLowerCase s = ascii_toLowerCase s" if "is_ascii s" for s
    using that by (auto simp: sample_toLowerCase_def)
  then show ?thesis by (simp add: ascii_folding_def)
qed

text \<open>
  C4, as the claim states it, fails beyond ASCII. The name of the product contains the
  search text, a capital sigma, as it is written, so it contains it as a
  case-insensitive substring under any reading. The sigma ends the name, the platform
  lower-cases it there to the final form and the search text to the plain form, and the
  product is not returned.
\<close>

theorem filteredProducts_sigma_counterexample:
  "ascii_folding sample_toLowerCase
   \<and> sublist capital_sigma (p_name sigma_product)
   \<and> sample_toLowerCase (p_name sigma_product) = ''a'' @ [CHR 0xCF, CHR 0x82]
   \<and> sample_toLowerCase capital_sigma = [CHR 0xCF, CHR 0x83]
   \<and> filteredProducts sample_toLowerCase [sigma_product] capital_sigma ''All'' ''featured'' = []"
proof (intro conjI)
  show "ascii_folding sample_toLowerCase"
    by (rule ascii_folding_sample)
  have "p_name sigma_product = ''A'' @ capital_sigma @ []"
    by (simp add: sigma_product_def)
  then show "sublist capital_sigma (p_name sigma_product)"
    by (simp only: sublist_appendI)
  show "sample_toLowerCase (p_name sigma_product) = ''a'' @ [CHR 0xCF, CHR 0x82]"
    by (simp add: sample_toLowerCase_def sigma_product_def)
  show "sample_toLowerCase capital_sigma = [CHR 0xCF, CHR 0x83]"
    by (simp add: sample_toLowerCase_def capital_sigma_def)
  show "filteredProducts sample_toLowerCase [sigma_product] capital_sigma ''All'' ''featured'' = []"
    by code_simp
qed

section \<open>Properties of the order builder\<close>

lemma items_sum:
  "(\<Sum>i \<leftarrow> o_items (buildOrder now isoDate products st). of_int (i_qty i) * i_unitPrice i)
   = spec_total (st_cart st) products"
proof -
  have "(\<Sum>i \<leftarrow> map (\<lambda>(id, qty).
                  let p = find (\<lambda>x. p_id x = id) products
                  in \<lparr>i_id = id,
                      i_name = (case p of None \<Rightarrow> id
                                | Some p \<Rightarrow> if p_name p = [] then id else p_name p),
                      i_qty = qty,
                      i_unitPrice = (case p of None \<Rightarrow> 0
                                     | Some p \<Rightarrow> if p_price p = 0 then 0 else p_price p)\<rparr>) c.
            of_int (i_qty i) * i_unitPrice i) = spec_total c products" for c
    by (induction c) (auto simp: spec_total_def split: option.splits)
  then show ?thesis by (simp add: buildOrder_def)
qed

lemma handlePlaceOrder_success:
  assumes "c_name (st_orderInfo st) \<noteq> []" and "c_email (st_orderInfo st) \<noteq> []"
    and "c_address (st_orderInfo st) \<noteq> []" and "itemsInCart (st_cart st) \<noteq> 0"
  shows "handlePlaceOrder now isoDate products st
         = (Download (o_id (buildOrder now isoDate products st) @ ''_receipt.json'')
              (buildOrder now isoDate products st),
            st\<lparr>st_orderPlaced := Some (buildOrder now isoDate products st),
                st_cart := clearCart, st_checkoutOpen := False\<rparr>)"
  using assms by (simp add: handlePlaceOrder_def Let_def)

lemma sample_state_complete:
  "c_name (st_orderInfo sample_state) \<noteq> []" "c_email (st_orderInfo sample_state) \<noteq> []"
  "c_address (st_orderInfo sample_state) \<noteq> []" "itemsInCart (st_cart sample_state) \<noteq> 0"
  by (simp_all add: sample_state_def jo_def itemsInCart_def)

text \<open>
  C1. A submission with an empty name, email or address ends in the alert for the
  fields, and one with complete fields and \<^verbatim>\<open>itemsInCart() === 0\<close> in the alert for
  the cart; the two alerts differ. In both cases the state (cart, panel, form, stored
  order) is returned as it was, and nothing is offered for download. With complete
  fields and a cart whose item count is not 0 the submission succeeds: an order is
  built, stored and offered for download.
\<close>

theorem handlePlaceOrder_validates:
  "(c_name (st_orderInfo st) = [] \<or> c_email (st_orderInfo st) = [] \<or> c_address (st_orderInfo st) = []
      \<longrightarrow> handlePlaceOrder now isoDate products st
            = (Alert ''Please complete name, email and address.'', st))
   \<and> (c_name (st_orderInfo st) \<noteq> [] \<and> c_email (st_orderInfo st) \<noteq> [] \<and> c_address (st_orderInfo st) \<noteq> []
        \<and> itemsInCart (st_cart st) = 0
      \<longrightarrow> handlePlaceOrder now isoDate products st
            = (Alert ''Cart is empty. Add some cookies first.'', st))
   \<and> ''Please complete name, email and address.'' \<noteq> ''Cart is empty. Add some cookies first.''
   \<and> (c_name (st_orderInfo st) \<noteq> [] \<and> c_email (st_orderInfo st) \<noteq> [] \<and> c_address (st_orderInfo st) \<noteq> []
        \<and> itemsInCart (st_cart st) \<noteq> 0
      \<longrightarrow> (\<exists>ord. handlePlaceOrder now isoDate products st
            = (Download (o_id ord @ ''_receipt.json'') ord,
               st\<lparr>st_orderPlaced := Some ord, st_cart := [], st_checkoutOpen := False\<rparr>)))"
  by (simp add: handlePlaceOrder_def Let_def clearCart_def)

theorem handlePlaceOrder_validates_witness:
  "handlePlaceOrder 1700000000000 ''2023-11-14T22:13:20.000Z'' SAMPLE_PRODUCTS
      (sample_state\<lparr>st_orderInfo := jo\<lparr>c_name := []\<rparr>\<rparr>)
     = (Alert ''Please complete name, email and address.'',
        sample_state\<lparr>st_orderInfo := jo\<lparr>c_name := []\<rparr>\<rparr>)
   \<and> handlePlaceOrder 1700000000000 ''2023-11-14T22:13:20.000Z'' SAMPLE_PRODUCTS
      (sample_state\<lparr>st_cart := []\<rparr>)
     = (Alert ''Cart is empty. Add some cookies first.'', sample_state\<lparr>st_cart := []\<rparr>)
   \<and> (\<exists>ord. handlePlaceOrder 1700000000000 ''2023-11-14T22:13:20.000Z'' SAMPLE_PRODUCTS sample_state
         = (Download (o_id ord @ ''_receipt.json'') ord,
            sample_state\<lparr>st_orderPlaced := Some ord, st_cart := [], st_checkoutOpen := False\<rparr>))"
proof (intro conjI)
  let ?s1 = "sample_state\<lparr>st_orderInfo := jo\<lparr>c_name := []\<rparr>\<rparr>"
  let ?s2 = "sample_state\<lparr>st_cart := []\<rparr>"
  have "c_name (st_orderInfo ?s1) = []"
    by simp
  then have a: "c_name (st_orderInfo ?s1) = [] \<or> c_email (st_orderInfo ?s1) = []
                \<or> c_address (st_orderInfo ?s1) = []"
    by (rule disjI1)
  have b: "c_name (st_orderInfo ?s2) \<noteq> [] \<and> c_email (st_orderInfo ?s2) \<noteq> []
           \<and> c_address (st_orderInfo ?s2) \<noteq> [] \<and> itemsInCart (st_cart ?s2) = 0"
    by (simp add: sample_state_def jo_def itemsInCart_def)
  have c: "c_name (st_orderInfo sample_state) \<noteq> [] \<and> c_email (st_orderInfo sample_state) \<noteq> []
           \<and> c_address (st_orderInfo sample_state) \<noteq> [] \<and> itemsInCart (st_cart sample_state) \<noteq> 0"
    by (simp add: sample_state_complete)
  note v = handlePlaceOrder_validates [of _ 1700000000000 "''2023-11-14T22:13:20.000Z''" SAMPLE_PRODUCTS]
  from v [of ?s1, THEN conjunct1] a
  show "handlePlaceOrder 1700000000000 ''2023-11-14T22:13:20.000Z'' SAMPLE_PRODUCTS ?s1
        = (Alert ''Please complete name, email and address.'', ?s1)"
    by (rule mp)
  from v [of ?s2, THEN conjunct2, THEN conjunct1] b
  show "handlePlaceOrder 1700000000000 ''2023-11-14T22:13:20.000Z'' SAMPLE_PRODUCTS ?s2
        = (Alert ''Cart is empty. Add some cookies first.'', ?s2)"
    by (rule mp)
  from v [of sample_state, THEN conjunct2, THEN conjunct2, THEN conjunct2] c
  show "\<exists>ord. handlePlaceOrder 1700000000000 ''2023-11-14T22:13:20.000Z'' SAMPLE_PRODUCTS sample_state
         = (Download (o_id ord @ ''_receipt.json'') ord,
            sample_state\<lparr>st_orderPlaced := Some ord, st_cart := [], st_checkoutOpen := False\<rparr>)"
    by (rule mp)
qed

text \<open>
  C2. With complete fields and a cart whose item count is not 0 the submission
  succeeds, and the order it stores has a subtotal equal to the sum of quantity times
  unit price over the order's own items, equal to \<^verbatim>\<open>cartTotal()\<close> of the cart before
  the call, and so to the total of the specification with 0 for unresolved ids.
\<close>

theorem order_subtotal:
  assumes "c_name (st_orderInfo st) \<noteq> []" and "c_email (st_orderInfo st) \<noteq> []"
    and "c_address (st_orderInfo st) \<noteq> []" and "itemsInCart (st_cart st) \<noteq> 0"
  shows "\<exists>ord st'. handlePlaceOrder now isoDate products st
                      = (Download (o_id ord @ ''_receipt.json'') ord, st')
           \<and> st_orderPlaced st' = Some ord
           \<and> o_subtotal ord = (\<Sum>i \<leftarrow> o_items ord. of_int (i_qty i) * i_unitPrice i)
           \<and> o_subtotal ord = cartTotal (st_cart st) products
           \<and> o_subtotal ord = spec_total (st_cart st) products"
proof -
  let ?ord = "buildOrder now isoDate products st"
  have sub: "o_subtotal ?ord = cartTotal (st_cart st) products"
    by (simp add: buildOrder_def)
  have "handlePlaceOrder now isoDate products st
        = (Download (o_id ?ord @ ''_receipt.json'') ?ord,
           st\<lparr>st_orderPlaced := Some ?ord, st_cart := clearCart, st_checkoutOpen := False\<rparr>)"
    using assms by (rule handlePlaceOrder_success)
  moreover have "o_subtotal ?ord = (\<Sum>i \<leftarrow> o_items ?ord. of_int (i_qty i) * i_unitPrice i)"
    by (simp only: sub items_sum cartTotal_eq_spec)
  moreover have "o_subtotal ?ord = spec_total (st_cart st) products"
    by (simp only: sub cartTotal_eq_spec)
  ultimately show ?thesis using sub by auto
qed

theorem order_subtotal_witness:
  "\<exists>ord st'. handlePlaceOrder 1700000000000 ''2023-11-14T22:13:20.000Z'' SAMPLE_PRODUCTS sample_state
                = (Download (o_id ord @ ''_receipt.json'') ord, st')
     \<and> o_subtotal ord = 9
     \<and> (\<Sum>i \<leftarrow> o_items ord. of_int (i_qty i) * i_unitPrice i) = 9"
proof -
  have v: "cartTotal (st_cart sample_state) SAMPLE_PRODUCTS = 9"
    by (simp add: sample_state_def cartTotal_def SAMPLE_PRODUCTS_def)
  from order_subtotal [OF sample_state_complete,
      of 1700000000000 "''2023-11-14T22:13:20.000Z''" SAMPLE_PRODUCTS]
  obtain ord st' where
    "handlePlaceOrder 1700000000000 ''2023-11-14T22:13:20.000Z'' SAMPLE_PRODUCTS sample_state
       = (Download (o_id ord @ ''_receipt.json'') ord, st')"
    "o_subtotal ord = (\<Sum>i \<leftarrow> o_items ord. of_int (i_qty i) * i_unitPrice i)"
    "o_subtotal ord = cartTotal (st_cart sample_state) SAMPLE_PRODUCTS"
    by blast
  with v show ?thesis by (intro exI [of _ ord] exI [of _ st']) simp
qed

subsection \<open>The order id\<close>

lemma digit_char_inj:
  assumes "a < 10" and "b < 10" and "digit_char a = digit_char b"
  shows "a = b"
proof -
  have "distinct ''0123456789''" by simp
  moreover have "a < length ''0123456789''" "b < length ''0123456789''"
    using assms(1,2) by simp_all
  ultimately show ?thesis
    using assms(3) unfolding digit_char_def by (simp only: nth_eq_iff_index_eq)
qed

lemma digit_char_not_minus: "d < 10 \<Longrightarrow> digit_char d \<noteq> CHR ''-''"
proof -
  assume "d < 10"
  then have "''0123456789'' ! d \<in> set ''0123456789''"
    by (intro nth_mem) simp
  then show ?thesis unfolding digit_char_def by auto
qed

lemma digits_small: "n < 10 \<Longrightarrow> digits n = [digit_char n]"
  by (subst digits.simps) simp

lemma digits_big: "\<not> n < 10 \<Longrightarrow> digits n = digits (n div 10) @ [digit_char (n mod 10)]"
  by (subst digits.simps) simp

lemma digits_nonempty: "digits n \<noteq> []"
  by (cases "n < 10") (simp_all add: digits_small digits_big)

lemma digits_not_minus: "ch \<in> set (digits n) \<Longrightarrow> ch \<noteq> CHR ''-''"
proof (induction n rule: digits.induct)
  case (1 n)
  show ?case
  proof (cases "n < 10")
    case True
    with "1.prems" show ?thesis
      by (simp add: digits_small digit_char_not_minus)
  next
    case False
    with "1.prems" have "ch \<in> set (digits (n div 10)) \<or> ch = digit_char (n mod 10)"
      by (auto simp: digits_big)
    then show ?thesis
    proof
      assume "ch \<in> set (digits (n div 10))"
      with False show ?thesis by (rule "1.IH")
    next
      assume "ch = digit_char (n mod 10)"
      then show ?thesis by (simp add: digit_char_not_minus)
    qed
  qed
qed

lemma digits_inj: "digits n = digits m \<Longrightarrow> n = m"
proof (induction n arbitrary: m rule: digits.induct)
  case (1 n)
  show ?case
  proof (cases "n < 10")
    case n: True
    show ?thesis
    proof (cases "m < 10")
      case True
      with n "1.prems" show ?thesis
        by (simp add: digits_small digit_char_inj)
    next
      case False
      with n "1.prems" have "digits (m div 10) = []"
        by (simp add: digits_small digits_big)
      with digits_nonempty show ?thesis by blast
    qed
  next
    case n: False
    show ?thesis
    proof (cases "m < 10")
      case True
      with n "1.prems" have "digits (n div 10) = []"
        by (simp add: digits_small digits_big)
      with digits_nonempty show ?thesis by blast
    next
      case False
      with n "1.prems" have d: "digits (n div 10) = digits (m div 10)"
        and c: "digit_char (n mod 10) = digit_char (m mod 10)"
        by (simp_all add: digits_big)
      from n d have "n div 10 = m div 10" by (rule "1.IH")
      moreover from c have "n mod 10 = m mod 10"
        by (intro digit_char_inj) simp_all
      ultimately show ?thesis
        by (metis div_mult_mod_eq)
    qed
  qed
qed

lemma Number_toString_inj: "Number_toString i = Number_toString j \<Longrightarrow> i = j"
proof -
  assume eq: "Number_toString i = Number_toString j"
  have minus: "CHR ''-'' # ds \<noteq> digits n" for ds n
    using digits_not_minus [of "CHR ''-''" n] by (metis list.set_intros(1))
  show "i = j"
  proof (cases "i < 0")
    case i: True
    show ?thesis
    proof (cases "j < 0")
      case True
      with i eq have "nat (- i) = nat (- j)"
        by (simp add: Number_toString_def digits_inj)
      with i True show ?thesis by simp
    next
      case False
      with i eq minus [of "digits (nat (- i))" "nat j"] show ?thesis
        by (simp add: Number_toString_def)
    qed
  next
    case i: False
    show ?thesis
    proof (cases "j < 0")
      case True
      with i eq minus [of "digits (nat (- j))" "nat i"] show ?thesis
        by (simp add: Number_toString_def)
    next
      case False
      with i eq have "nat i = nat j"
        by (simp add: Number_toString_def digits_inj)
      with i False show ?thesis by simp
    qed
  qed
qed

lemma first_submit_eq:
  "first_submit =
     (Download ''ORD-1700000000000_receipt.json''
        \<lparr>o_id = ''ORD-1700000000000'', o_date = ''2023-11-14T22:13:20.000Z'', o_customer = jo,
         o_items = [\<lparr>i_id = ''cookies-01'', i_name = ''Classic Chocolate Chip'', i_qty = 2,
                     i_unitPrice = 9 / 2\<rparr>],
         o_subtotal = 9,
         o_note = ''This is a simulated checkout '' @ [CHR 0xE2, CHR 0x80, CHR 0x94]
               @ '' integrate a payment gateway for real orders.''\<rparr>,
      \<lparr>st_cart = [], st_checkoutOpen = False, st_orderInfo = jo,
       st_orderPlaced = Some
        \<lparr>o_id = ''ORD-1700000000000'', o_date = ''2023-11-14T22:13:20.000Z'', o_customer = jo,
         o_items = [\<lparr>i_id = ''cookies-01'', i_name = ''Classic Chocolate Chip'', i_qty = 2,
                     i_unitPrice = 9 / 2\<rparr>],
         o_subtotal = 9,
         o_note = ''This is a simulated checkout '' @ [CHR 0xE2, CHR 0x80, CHR 0x94]
               @ '' integrate a payment gateway for real orders.''\<rparr>\<rparr>)"
  by (simp add: first_submit_def sample_state_def handlePlaceOrder_def buildOrder_def
      itemsInCart_def jo_def SAMPLE_PRODUCTS_def Number_toString_def digits.simps digit_char_def
      cartTotal_def clearCart_def Let_def)

text \<open>
  C8, as the code has it. The id is \<^verbatim>\<open>ORD-\<close> followed by the clock reading in
  milliseconds, so the orders of two successful submissions have the same id exactly
  when \<^verbatim>\<open>Date.now()\<close> gave the same reading: ids are distinct whenever the readings
  differ.
\<close>

theorem order_id_distinct_iff:
  assumes "handlePlaceOrder now1 iso1 ps1 st1 = (Download f1 ord1, st1')"
    and "handlePlaceOrder now2 iso2 ps2 st2 = (Download f2 ord2, st2')"
  shows "o_id ord1 = o_id ord2 \<longleftrightarrow> now1 = now2"
proof -
  from assms(1) have 1: "o_id ord1 = ''ORD-'' @ Number_toString now1"
    by (auto simp: handlePlaceOrder_def Let_def buildOrder_def split: if_splits)
  from assms(2) have 2: "o_id ord2 = ''ORD-'' @ Number_toString now2"
    by (auto simp: handlePlaceOrder_def Let_def buildOrder_def split: if_splits)
  show ?thesis
    unfolding 1 2 using Number_toString_inj [of now1 now2] by auto
qed

theorem order_id_distinct_iff_witness:
  "fst (handlePlaceOrder 1700000000000 ''2023-11-14T22:13:20.000Z'' SAMPLE_PRODUCTS sample_state)
     = Download (o_id (buildOrder 1700000000000 ''2023-11-14T22:13:20.000Z'' SAMPLE_PRODUCTS sample_state)
                  @ ''_receipt.json'')
         (buildOrder 1700000000000 ''2023-11-14T22:13:20.000Z'' SAMPLE_PRODUCTS sample_state)
   \<and> fst (handlePlaceOrder 1700000000001 ''2023-11-14T22:13:20.001Z'' SAMPLE_PRODUCTS sample_state)
     = Download (o_id (buildOrder 1700000000001 ''2023-11-14T22:13:20.001Z'' SAMPLE_PRODUCTS sample_state)
                  @ ''_receipt.json'')
         (buildOrder 1700000000001 ''2023-11-14T22:13:20.001Z'' SAMPLE_PRODUCTS sample_state)
   \<and> o_id (buildOrder 1700000000000 ''2023-11-14T22:13:20.000Z'' SAMPLE_PRODUCTS sample_state)
       \<noteq> o_id (buildOrder 1700000000001 ''2023-11-14T22:13:20.001Z'' SAMPLE_PRODUCTS sample_state)"
proof -
  note run = handlePlaceOrder_success [OF sample_state_complete, of _ _ SAMPLE_PRODUCTS]
  from order_id_distinct_iff [OF run run, of 1700000000000 "''2023-11-14T22:13:20.000Z''"
      1700000000001 "''2023-11-14T22:13:20.001Z''"]
  have "o_id (buildOrder 1700000000000 ''2023-11-14T22:13:20.000Z'' SAMPLE_PRODUCTS sample_state)
       \<noteq> o_id (buildOrder 1700000000001 ''2023-11-14T22:13:20.001Z'' SAMPLE_PRODUCTS sample_state)"
    by simp
  then show ?thesis by (simp add: run)
qed

text \<open>
  C8, as the claim states it, fails: in the sample session two distinct successful
  submissions read the same clock value, and both orders get the id
  \<^verbatim>\<open>ORD-1700000000000\<close>, though one is for \<^verbatim>\<open>cookies-01\<close> and the other for
  \<^verbatim>\<open>cookies-02\<close>.
\<close>

theorem order_id_repeats_counterexample:
  "map_option o_id (st_orderPlaced (snd first_submit)) = Some ''ORD-1700000000000''
   \<and> map_option o_id (st_orderPlaced (snd second_submit)) = Some ''ORD-1700000000000''
   \<and> map_option (map i_id \<circ> o_items) (st_orderPlaced (snd first_submit)) = Some [''cookies-01'']
   \<and> map_option (map i_id \<circ> o_items) (st_orderPlaced (snd second_submit)) = Some [''cookies-02'']"
  by (simp add: second_submit_def first_submit_eq handlePlaceOrder_def buildOrder_def addToCart_def
      itemsInCart_def jo_def SAMPLE_PRODUCTS_def Number_toString_def digits.simps digit_char_def
      cartTotal_def clearCart_def Let_def)

section \<open>Properties of the persistence\<close>

text \<open>
  What the initialiser does guarantee. It never throws: it returns the empty object
  when reading the slot throws, when nothing is stored, when the stored text is empty
  and when \<^verbatim>\<open>JSON.parse\<close> throws on it. For any other stored text it returns what
  \<^verbatim>\<open>JSON.parse\<close> returns, with no look at the value.
\<close>

lemma loadCart_recovers:
  "loadCart Throws parse = JObject []
   \<and> loadCart (Returns None) parse = JObject []
   \<and> loadCart (Returns (Some [])) parse = JObject []
   \<and> (parse raw = Throws \<longrightarrow> loadCart (Returns (Some raw)) parse = JObject [])
   \<and> (raw \<noteq> [] \<and> parse raw = Returns v \<longrightarrow> loadCart (Returns (Some raw)) parse = v)
   \<and> is_mapping (JObject [])"
  by (simp add: loadCart_def)

lemma loadCart_examples:
  "loadCart (Returns (Some ''{bad'')) sample_parse = JObject []"
  "loadCart (Returns (Some (''{'' @ [CHR 0x22] @ ''cookies-01'' @ [CHR 0x22] @ '':2}''))) sample_parse
     = JObject [(''cookies-01'', JNumber 2)]"
  by (simp_all add: loadCart_def sample_parse_def)

text \<open>
  C7. The claim asks for a mapping from every content of the slot, and the
  initialiser's falsy test and \<^verbatim>\<open>try/catch\<close> aim at that, but one case slips through.
  The stored text \<^verbatim>\<open>null\<close> is valid JSON: nothing is thrown, the initialiser returns
  \<^verbatim>\<open>null\<close>, which is no mapping, and the first render then throws in
  \<^verbatim>\<open>Object.values(cart)\<close>.
\<close>

theorem loadCart_null_blob:
  "sample_parse ''null'' = Returns JNull
   \<and> loadCart (Returns (Some ''null'')) sample_parse = JNull
   \<and> \<not> is_mapping (loadCart (Returns (Some ''null'')) sample_parse)
   \<and> Object_values_throws (loadCart (Returns (Some ''null'')) sample_parse)"
  by (simp add: loadCart_def sample_parse_def)

end
